theory Spec2Isabelle
  imports Main "HOL-Library.Word"
begin

section \<open>The value store of package tsdb (shard.go)\<close>

text \<open>
  A \<open>Value\<close> pairs a timestamp (\<open>int64\<close> nanoseconds; only compared, never added, so it
  is an \<open>int\<close> here) with its payload.
\<close>

record 'v Value =
  UnixNano :: int
  V :: 'v

text \<open>
  An \<open>entry\<close> holds one Go slice. A slice is its elements together with the capacity of
  its backing array; \<open>partition.removeBefore\<close> reads \<open>cap(e.values)\<close>, so the capacity
  is part of the state (the field \<open>values\<close> is \<open>evalues\<close> here). The mutexes are left
  out: the model is sequential.
\<close>

record 'v entry =
  evalues :: "'v Value list"
  cap :: nat

text \<open>
  \<open>append(s, vs...)\<close>: the elements are appended; the capacity stays when the result
  fits and is otherwise chosen by the Go runtime. That choice is the parameter \<open>grow\<close>
  (old capacity, needed length).
\<close>

definition append_slice :: "(nat \<Rightarrow> nat \<Rightarrow> nat) \<Rightarrow> 'v entry \<Rightarrow> 'v Value list \<Rightarrow> 'v entry" where
  "append_slice grow e vs =
     (let n = length (evalues e) + length vs
      in \<lparr>evalues = evalues e @ vs, cap = (if n \<le> cap e then cap e else grow (cap e) n)\<rparr>)"

text \<open>\<open>newEntry\<close>: \<open>make([]Value[T], 0, len(vs))\<close>, then an append that fits.\<close>

definition newEntry :: "'v Value list \<Rightarrow> 'v entry" where
  "newEntry vs = \<lparr>evalues = [] @ vs, cap = length vs\<rparr>"

definition add :: "(nat \<Rightarrow> nat \<Rightarrow> nat) \<Rightarrow> 'v entry \<Rightarrow> 'v Value list \<Rightarrow> 'v entry" where
  "add grow e vs = append_slice grow e vs"

text \<open>
  \<open>entry.removeBefore\<close>: a new slice \<open>make([]Value[T], 0, len(e.values))\<close> receives the
  values with \<open>v.UnixNano >= unixNano\<close> in order. At most \<open>len(e.values)\<close> values are
  appended, so the capacity stays \<open>len(e.values)\<close>, the length before the sweep.
\<close>

definition entry_removeBefore :: "int \<Rightarrow> 'v entry \<Rightarrow> 'v entry" where
  "entry_removeBefore unixNano e =
     \<lparr>evalues = filter (\<lambda>v. UnixNano v \<ge> unixNano) (evalues e), cap = length (evalues e)\<rparr>"

text \<open>\<open>entry.valuesBetween\<close>: a nil slice that receives the values inside \<open>[min, max]\<close>.\<close>

definition entry_valuesBetween :: "'v entry \<Rightarrow> int \<Rightarrow> int \<Rightarrow> 'v Value list" where
  "entry_valuesBetween e mn mx = filter (\<lambda>v. UnixNano v \<ge> mn \<and> UnixNano v \<le> mx) (evalues e)"

text \<open>
  A \<open>partition\<close> is the Go map from series key to entry. Every key owns an entry of its
  own (only \<open>newEntry\<close> creates one), so the entries are held by value.
\<close>

record 'v partition =
  store :: "string \<rightharpoonup> 'v entry"

definition newPartition :: "'v partition" where
  "newPartition = \<lparr>store = Map.empty\<rparr>"

text \<open>
  \<open>partition.write\<close>: the probe under the read lock and the second check under the write
  lock see the same map in a sequential run.
\<close>

definition partition_write :: "(nat \<Rightarrow> nat \<Rightarrow> nat) \<Rightarrow> 'v partition \<Rightarrow> string \<Rightarrow> 'v Value list \<Rightarrow> 'v partition" where
  "partition_write grow p key vs =
     (case store p key of
        Some e \<Rightarrow> p\<lparr>store := (store p)(key \<mapsto> add grow e vs)\<rparr>
      | None \<Rightarrow> p\<lparr>store := (store p)(key \<mapsto> newEntry vs)\<rparr>)"

text \<open>
  \<open>partition.removeBefore\<close>: every entry is swept, and the new map keeps the entries
  whose capacity after the sweep is not zero. The keys are independent of each other, so
  the order of Go's map iteration does not show.
\<close>

definition partition_removeBefore :: "int \<Rightarrow> 'v partition \<Rightarrow> 'v partition" where
  "partition_removeBefore unixNano p =
     p\<lparr>store := (\<lambda>k. case store p k of
                        None \<Rightarrow> None
                      | Some e \<Rightarrow>
                          (let e' = entry_removeBefore unixNano e
                           in if cap e' \<noteq> 0 then Some e' else None))\<rparr>"

definition partition_valuesBetween :: "'v partition \<Rightarrow> string \<Rightarrow> int \<Rightarrow> int \<Rightarrow> 'v Value list" where
  "partition_valuesBetween p key mn mx =
     (case store p key of None \<Rightarrow> [] | Some e \<Rightarrow> entry_valuesBetween e mn mx)"

text \<open>
  A \<open>shard\<close> is the slice of its partitions. \<open>newShard\<close> appends \<open>_partitionNum\<close>
  new partitions to an empty slice.
\<close>

record 'v shard =
  partitions :: "'v partition list"

definition partitionNum :: nat where
  "partitionNum = 16"

definition newShard :: "'v shard" where
  "newShard = \<lparr>partitions = fold (\<lambda>i ps. ps @ [newPartition]) [0..<partitionNum] []\<rparr>"

definition shard_removeBefore :: "int \<Rightarrow> 'v shard \<Rightarrow> 'v shard" where
  "shard_removeBefore unixNano s =
     s\<lparr>partitions := map (partition_removeBefore unixNano) (partitions s)\<rparr>"

text \<open>
  \<open>getPartitions\<close> computes \<open>int(xxhash.Sum64([]byte(key)) % uint64(len(s.partitions)))\<close>
  and indexes the slice with it. The hash is the library's and is the parameter
  \<open>sum64\<close>. The result is the index of the partition, or \<open>None\<close> where Go panics:
  on the division by zero of an empty slice, and on an index out of range
  (\<open>int(...)\<close> reads the 64 bits as signed).
\<close>

definition getPartitions :: "(string \<Rightarrow> 64 word) \<Rightarrow> 'v shard \<Rightarrow> string \<Rightarrow> nat option" where
  "getPartitions sum64 s key =
     (let n = (word_of_nat (length (partitions s)) :: 64 word)
      in if n = 0 then None
         else (let i = sint (sum64 key mod n)
               in if 0 \<le> i \<and> i < int (length (partitions s)) then Some (nat i) else None))"

text \<open>
  \<open>writeMulti\<close> ranges over the Go map \<open>values\<close>, here the list of its key/value pairs
  (every key once); \<open>None\<close> is a panic of \<open>getPartitions\<close>.
\<close>

fun writeMulti ::
  "(string \<Rightarrow> 64 word) \<Rightarrow> (nat \<Rightarrow> nat \<Rightarrow> nat) \<Rightarrow> 'v shard \<Rightarrow> (string \<times> 'v Value list) list \<Rightarrow> 'v shard option" where
  "writeMulti sum64 grow s [] = Some s"
| "writeMulti sum64 grow s ((k, v) # kvs) =
     (case getPartitions sum64 s k of
        None \<Rightarrow> None
      | Some i \<Rightarrow>
          writeMulti sum64 grow
            (s\<lparr>partitions := (partitions s)[i := partition_write grow (partitions s ! i) k v]\<rparr>) kvs)"

text \<open>The shards a program can hold: \<open>newShard\<close> is the only constructor, and the two
  operations that change a shard are \<open>removeBefore\<close> and \<open>writeMulti\<close>.\<close>

inductive reachable_shard :: "(string \<Rightarrow> 64 word) \<Rightarrow> (nat \<Rightarrow> nat \<Rightarrow> nat) \<Rightarrow> 'v shard \<Rightarrow> bool"
  for sum64 :: "string \<Rightarrow> 64 word" and grow :: "nat \<Rightarrow> nat \<Rightarrow> nat" where
  reach_new: "reachable_shard sum64 grow newShard"
| reach_removeBefore:
    "reachable_shard sum64 grow s \<Longrightarrow> reachable_shard sum64 grow (shard_removeBefore t s)"
| reach_writeMulti:
    "reachable_shard sum64 grow s \<Longrightarrow> writeMulti sum64 grow s kvs = Some s' \<Longrightarrow>
     reachable_shard sum64 grow s'"

section \<open>The windowed engine of package memtsdb\<close>

subsection \<open>Instants and durations\<close>

text \<open>
  A \<open>time.Time\<close> is an instant, here its number of nanoseconds since Go's zero time;
  a \<open>time.Duration\<close> is a number of nanoseconds. The Unix epoch lies a whole number of
  days after the zero time, so an instant is a multiple of a minute on both scales at
  once. The bounds of \<open>Time\<close> (hundreds of billions of years away) are not modelled.
  The functions below are the standard library's, after its source and documentation.

  \<open>Round\<close>: the nearest multiple of \<open>d\<close> since the zero time, halfway values rounding up;
  \<open>t\<close> itself when \<open>d <= 0\<close>. The library takes the remainder \<open>r\<close> with
  \<open>0 <= r < d\<close> (also for instants before the zero time) and returns \<open>t - r\<close> when
  \<open>r + r < d\<close> and \<open>t + (d - r)\<close> otherwise.
\<close>

definition Round :: "int \<Rightarrow> int \<Rightarrow> int" where
  "Round t d = (if d \<le> 0 then t else (let r = t mod d in if r + r < d then t - r else t + (d - r)))"

text \<open>\<open>Sub\<close> is the difference as an \<open>int64\<close> duration, saturating at its bounds.\<close>

definition Sub :: "int \<Rightarrow> int \<Rightarrow> int" where
  "Sub t u =
     (let d = t - u
      in if d > 2 ^ 63 - 1 then 2 ^ 63 - 1 else if d < - (2 ^ 63) then - (2 ^ 63) else d)"

definition Add :: "int \<Rightarrow> int \<Rightarrow> int" where
  "Add t d = t + d"

definition Before :: "int \<Rightarrow> int \<Rightarrow> bool" where
  "Before t u = (t < u)"

definition After :: "int \<Rightarrow> int \<Rightarrow> bool" where
  "After t u = (t > u)"

definition Equal :: "int \<Rightarrow> int \<Rightarrow> bool" where
  "Equal t u = (t = u)"

text \<open>
  \<open>time.Unix(sec, nsec)\<close>: the instant \<open>sec\<close> seconds and \<open>nsec\<close> nanoseconds after the
  Unix epoch, which is 62135596800 seconds after the zero time.
\<close>

definition Unix :: "int \<Rightarrow> int \<Rightarrow> int" where
  "Unix sec nsec = (sec + 62135596800) * 1000000000 + nsec"

text \<open>\<open>_shardGroupDuration = 1 * time.Minute\<close>, in nanoseconds.\<close>

definition shardGroupDuration :: int where
  "shardGroupDuration = 1 * 60000000000"

subsection \<open>Points and the shard of one group\<close>

record Tag =
  Key :: string
  Value :: string

record 'v Point =
  Tags :: "Tag list"
  Time :: int
  Field :: 'v

text \<open>
  Modelled from the spec: the type \<open>Shard\<close> of package memtsdb, with \<open>NewShard\<close>,
  \<open>Insert\<close> and \<open>Query\<close>, is not among the source files; only its test is. After the
  spec and the test, a shard holds the inserted points in order (\<open>values\<close>, here
  \<open>svalues\<close>) and an index from tag key and tag value to the positions of the points
  that carry the tag; \<open>Insert\<close> appends the point and adds its position under each of its
  tags; \<open>Query\<close> returns, in the order of the index, the points under the tag whose time
  lies in \<open>[min, max]\<close>.
\<close>

record 'v MemShard =
  svalues :: "'v Point list"
  sindex :: "string \<Rightarrow> string \<Rightarrow> nat list"

definition NewMemShard :: "'v MemShard" where
  "NewMemShard = \<lparr>svalues = [], sindex = (\<lambda>k v. [])\<rparr>"

definition updateIndex :: "nat \<Rightarrow> Tag \<Rightarrow> 'v MemShard \<Rightarrow> 'v MemShard" where
  "updateIndex i tag s =
     s\<lparr>sindex := (sindex s)(Key tag := (sindex s (Key tag))(Value tag := sindex s (Key tag) (Value tag) @ [i]))\<rparr>"

definition shard_Insert :: "'v MemShard \<Rightarrow> 'v Point \<Rightarrow> 'v MemShard" where
  "shard_Insert s p = fold (updateIndex (length (svalues s))) (Tags p) (s\<lparr>svalues := svalues s @ [p]\<rparr>)"

definition shard_Query :: "'v MemShard \<Rightarrow> Tag \<Rightarrow> int \<Rightarrow> int \<Rightarrow> 'v Point list" where
  "shard_Query s tag mn mx =
     concat (map (\<lambda>i. if i < length (svalues s) \<and> mn \<le> Time (svalues s ! i) \<and> Time (svalues s ! i) \<le> mx
                       then [svalues s ! i] else [])
                 (sindex s (Key tag) (Value tag)))"

subsection \<open>Shard groups\<close>

text \<open>
  A \<open>shardGroup\<close> holds its window and a reference to its shard: \<open>Shard\<close> is a reference
  type, and \<open>InsertPoints\<close> changes the shard through the copy of the group that
  \<open>getShardGroup\<close> returns. The reference is an address into the store of shards that the
  engine state carries below.
\<close>

record shardGroup =
  sg_max :: int
  sg_min :: int
  sg_shard :: nat

definition initTime :: "shardGroup \<Rightarrow> int \<Rightarrow> int \<Rightarrow> shardGroup" where
  "initTime g t round =
     (let rounded = Round t round
      in if Sub rounded t \<ge> 0
         then g\<lparr>sg_min := Add rounded (- round), sg_max := rounded\<rparr>
         else g\<lparr>sg_min := rounded, sg_max := Add rounded round\<rparr>)"

definition contains :: "shardGroup \<Rightarrow> int \<Rightarrow> bool" where
  "contains g t =
     (if Before (sg_min g) t \<and> After (sg_max g) t then True
      else if Equal (sg_min g) t then True
      else False)"

text \<open>The method \<open>have\<close> of a shard group.\<close>

definition sg_have :: "shardGroup \<Rightarrow> int \<Rightarrow> int \<Rightarrow> bool" where
  "sg_have g mn mx =
     (if Before (sg_min g) mn \<and> After (sg_max g) mn then True
      else if Before (sg_min g) mx \<and> After (sg_max g) mx then True
      else if Equal (sg_min g) mn then True
      else False)"

subsection \<open>The engine\<close>

text \<open>
  The engine state: the fields of \<open>tsdb\<close> (without the lock), and the store of the
  shards allocated so far, \<open>heap\<close>, with the next free address.
\<close>

record 'v tsdb =
  rd :: int
  sgs :: "shardGroup list"
  emptySgs :: "shardGroup list"
  heap :: "nat \<Rightarrow> 'v MemShard"
  nextShard :: nat

definition NewTSDB :: "int \<Rightarrow> 'v tsdb" where
  "NewTSDB retentionDuration =
     \<lparr>rd = retentionDuration, sgs = [], emptySgs = [], heap = (\<lambda>a. NewMemShard), nextShard = 0\<rparr>"

text \<open>\<open>NewShard()\<close> allocates an empty shard at the next free address.\<close>

definition NewShard :: "'v tsdb \<Rightarrow> nat \<times> 'v tsdb" where
  "NewShard t =
     (nextShard t, t\<lparr>heap := (heap t)(nextShard t := NewMemShard), nextShard := Suc (nextShard t)\<rparr>)"

text \<open>\<open>newShardGroup\<close>: the window fields start as the zero time.\<close>

definition newShardGroup :: "'v tsdb \<Rightarrow> int \<Rightarrow> int \<Rightarrow> shardGroup \<times> 'v tsdb" where
  "newShardGroup t ti round =
     (let (a, t') = NewShard t
      in (initTime \<lparr>sg_max = 0, sg_min = 0, sg_shard = a\<rparr> ti round, t'))"

definition getShardGroup :: "'v tsdb \<Rightarrow> int \<Rightarrow> shardGroup \<times> 'v tsdb" where
  "getShardGroup t ti =
     (case find (\<lambda>sg. contains sg ti) (sgs t) of
        Some sg \<Rightarrow> (sg, t)
      | None \<Rightarrow>
          (let (sg, t') =
                 (if length (emptySgs t) = 0 then newShardGroup t ti shardGroupDuration
                  else (initTime (last (emptySgs t)) ti shardGroupDuration,
                        t\<lparr>emptySgs := butlast (emptySgs t)\<rparr>))
           in (sg, t'\<lparr>sgs := sgs t' @ [sg]\<rparr>)))"

definition insertPoint :: "'v Point \<Rightarrow> 'v tsdb \<Rightarrow> 'v tsdb" where
  "insertPoint point t =
     (let (sg, t') = getShardGroup t (Time point)
      in t'\<lparr>heap := (heap t')(sg_shard sg := shard_Insert (heap t' (sg_shard sg)) point)\<rparr>)"

definition InsertPoints :: "'v tsdb \<Rightarrow> 'v Point list \<Rightarrow> 'v tsdb" where
  "InsertPoints t points = fold insertPoint points t"

definition Query :: "'v tsdb \<Rightarrow> Tag \<Rightarrow> int \<Rightarrow> int \<Rightarrow> 'v Point list" where
  "Query t tag mn mx =
     fold (\<lambda>sg ps. if \<not> sg_have sg mn mx then ps
                    else ps @ shard_Query (heap t (sg_shard sg)) tag mn mx)
          (sgs t) []"

text \<open>
  The calls of the interface \<open>TSDB\<close>. \<open>Query\<close> only reads the state; its result goes to
  the caller.
\<close>

datatype 'v call = CallInsertPoints "'v Point list" | CallQuery Tag int int

fun exec_call :: "'v tsdb \<Rightarrow> 'v call \<Rightarrow> 'v tsdb" where
  "exec_call t (CallInsertPoints points) = InsertPoints t points"
| "exec_call t (CallQuery tag mn mx) = t"

definition run_calls :: "int \<Rightarrow> 'v call list \<Rightarrow> 'v tsdb" where
  "run_calls retentionDuration calls = foldl exec_call (NewTSDB retentionDuration) calls"

section \<open>The engine of package tsdb\<close>

text \<open>
  A point of this package has the fields \<open>tags\<close>, \<open>time\<close> and \<open>field\<close>; its time is
  used only through \<open>UnixNano()\<close> and is that number here. The type is declared outside
  the source files at hand, as are the method \<open>Series\<close> and the index with
  \<open>createSeriesIfNotExists\<close>: both are parameters of \<open>WritePoints\<close> below, the index
  an arbitrary type \<open>'idx\<close>.
\<close>

record 'v TPoint =
  tags :: "Tag list"
  time :: int
  field :: 'v

datatype error = ErrDBClosed | ErrPointMissingTag

text \<open>
  The fields of \<open>TSDB\<close> (the field \<open>store\<close> is \<open>db_store\<close> here). The channel \<open>stop\<close>
  is unbuffered and its only receiver is the background process \<open>gc\<close> that \<open>New\<close>
  starts; \<open>gc\<close> returns when it has received once. In place of the channel the state
  says whether that receiver is still there: \<open>gcWaits\<close> holds while \<open>gc\<close> is in its
  loop.
\<close>

record ('v, 'idx) TSDB =
  retentionPolicy :: int
  gcWaits :: bool
  isClosed :: bool
  idx :: 'idx
  db_store :: "'v shard"

text \<open>
  \<open>New\<close> builds the engine and starts \<open>gc\<close>, whose first step is
  \<open>time.NewTicker(db.retentionPolicy)\<close>. The library panics there for a duration that is
  not positive, which ends the program: that is \<open>None\<close>. The index comes from
  \<open>newIndex()\<close>, here the parameter \<open>newIndex\<close>.
\<close>

definition New :: "'idx \<Rightarrow> int \<Rightarrow> ('v, 'idx) TSDB option" where
  "New newIndex rp =
     (if rp \<le> 0 then None
      else Some \<lparr>retentionPolicy = rp, gcWaits = True, isClosed = False, idx = newIndex,
                 db_store = newShard\<rparr>)"

text \<open>
  \<open>values[s] = append(values[s], v)\<close> on the local map \<open>values\<close>, kept as the list of
  its pairs in the order the keys first appear.
\<close>

fun appendValue :: "string \<Rightarrow> 'v Value \<Rightarrow> (string \<times> 'v Value list) list \<Rightarrow> (string \<times> 'v Value list) list" where
  "appendValue s v [] = [(s, [v])]"
| "appendValue s v ((k, vs) # rest) =
     (if k = s then (k, vs @ [v]) # rest else (k, vs) # appendValue s v rest)"

text \<open>
  The loop of \<open>WritePoints\<close> over the batch. It fills the two local maps and returns
  early, with \<open>ErrPointMissingTag\<close>, at the first point whose series key is empty.
\<close>

fun groupPoints ::
  "('v TPoint \<Rightarrow> string) \<Rightarrow> 'v TPoint list \<Rightarrow> (string \<rightharpoonup> Tag list) \<Rightarrow> (string \<times> 'v Value list) list \<Rightarrow>
   error + ((string \<rightharpoonup> Tag list) \<times> (string \<times> 'v Value list) list)" where
  "groupPoints Series [] seriesTags vals = Inr (seriesTags, vals)"
| "groupPoints Series (point # points) seriesTags vals =
     (let s = Series point
      in if length s = 0 then Inl ErrPointMissingTag
         else (let v = \<lparr>UnixNano = time point, V = field point\<rparr>;
                   vals' = appendValue s v vals
               in if seriesTags s \<noteq> None then groupPoints Series points seriesTags vals'
                  else groupPoints Series points (seriesTags(s \<mapsto> tags point)) vals'))"

text \<open>
  \<open>WritePoints\<close> returns the error (\<open>None\<close> for \<open>nil\<close>) and the engine state after the
  call; the outer \<open>None\<close> is a panic inside \<open>writeMulti\<close>.
\<close>

definition WritePoints ::
  "(string \<Rightarrow> 64 word) \<Rightarrow> (nat \<Rightarrow> nat \<Rightarrow> nat) \<Rightarrow> ('v TPoint \<Rightarrow> string) \<Rightarrow>
   ('idx \<Rightarrow> (string \<rightharpoonup> Tag list) \<Rightarrow> 'idx) \<Rightarrow>
   ('v, 'idx) TSDB \<Rightarrow> 'v TPoint list \<Rightarrow> (error option \<times> ('v, 'idx) TSDB) option" where
  "WritePoints sum64 grow Series createSeriesIfNotExists db points =
     (if isClosed db then Some (Some ErrDBClosed, db)
      else (case groupPoints Series points Map.empty [] of
              Inl e \<Rightarrow> Some (Some e, db)
            | Inr (seriesTags, vals) \<Rightarrow>
                (let db1 = db\<lparr>idx := createSeriesIfNotExists (idx db) seriesTags\<rparr>
                 in case writeMulti sum64 grow (db_store db1) vals of
                      None \<Rightarrow> None
                    | Some st \<Rightarrow> Some (None, db1\<lparr>db_store := st\<rparr>))))"

text \<open>
  \<open>Stop\<close> first sends on \<open>stop\<close>. While \<open>gc\<close> is in its loop it takes the send and
  returns, and \<open>Stop\<close> goes on to set \<open>isClosed\<close>. When \<open>gc\<close> has returned already,
  nothing ever receives, the send blocks forever and \<open>Stop\<close> does not return: that is
  \<open>None\<close>, and \<open>isClosed\<close> is not reached.
\<close>

definition Stop :: "('v, 'idx) TSDB \<Rightarrow> ('v, 'idx) TSDB option" where
  "Stop db = (if gcWaits db then Some (db\<lparr>gcWaits := False, isClosed := True\<rparr>) else None)"

text \<open>
  One sweep of the background process \<open>gc\<close>, the body of its ticker case, at the instant
  \<open>now\<close> (in Unix nanoseconds).
\<close>

definition gc_sweep :: "int \<Rightarrow> ('v, 'idx) TSDB \<Rightarrow> ('v, 'idx) TSDB" where
  "gc_sweep now db = db\<lparr>db_store := shard_removeBefore (now + (- retentionPolicy db)) (db_store db)\<rparr>"

text \<open>
  The operations a caller has on an engine: \<open>WritePoints\<close> and \<open>Stop\<close>. A run of them,
  one call after the other, comes to its end with a state, or stops at a call that
  panics, or stays forever in a \<open>Stop\<close> that blocks; the calls after that one do not
  happen.
\<close>

datatype 'v op = OpWritePoints "'v TPoint list" | OpStop

datatype 'a outcome = Done 'a | Panicked | Blocked

fun run_ops ::
  "(string \<Rightarrow> 64 word) \<Rightarrow> (nat \<Rightarrow> nat \<Rightarrow> nat) \<Rightarrow> ('v TPoint \<Rightarrow> string) \<Rightarrow>
   ('idx \<Rightarrow> (string \<rightharpoonup> Tag list) \<Rightarrow> 'idx) \<Rightarrow>
   ('v, 'idx) TSDB \<Rightarrow> 'v op list \<Rightarrow> ('v, 'idx) TSDB outcome" where
  "run_ops sum64 grow Series createSeriesIfNotExists db [] = Done db"
| "run_ops sum64 grow Series createSeriesIfNotExists db (OpWritePoints points # ops) =
     (case WritePoints sum64 grow Series createSeriesIfNotExists db points of
        None \<Rightarrow> Panicked
      | Some (e, db') \<Rightarrow> run_ops sum64 grow Series createSeriesIfNotExists db' ops)"
| "run_ops sum64 grow Series createSeriesIfNotExists db (OpStop # ops) =
     (case Stop db of
        None \<Rightarrow> Blocked
      | Some db' \<Rightarrow> run_ops sum64 grow Series createSeriesIfNotExists db' ops)"

section \<open>Points of the examples\<close>

text \<open>The tag \<open>a=b\<close> and a point that carries it, \<open>sec\<close> seconds after the Unix epoch.\<close>

definition tag_ab :: Tag where
  "tag_ab = \<lparr>Key = ''a'', Value = ''b''\<rparr>"

definition point_at :: "int \<Rightarrow> int Point" where
  "point_at sec = \<lparr>Tags = [tag_ab], Time = Unix sec 0, Field = sec\<rparr>"

text \<open>
  A partition with two series: \<open>cpu\<close> holds values at the instants 1, 5 and 3, and
  \<open>mem\<close> holds none.
\<close>

definition partition_cpu_mem :: "bool partition" where
  "partition_cpu_mem =
     \<lparr>store = [''cpu'' \<mapsto> \<lparr>evalues = [\<lparr>UnixNano = 1, V = True\<rparr>, \<lparr>UnixNano = 5, V = False\<rparr>,
                                       \<lparr>UnixNano = 3, V = True\<rparr>], cap = 4\<rparr>,
                ''mem'' \<mapsto> \<lparr>evalues = [], cap = 8\<rparr>]\<rparr>"

text \<open>
  The engine \<open>New[bool](1)\<close> over a trivial index, and the same engine after \<open>Stop\<close>;
  a hash, a capacity rule, a series key made of the tags, and an index that stays as it
  is, to run \<open>WritePoints\<close> with; a point with a tag and a point without tags.
\<close>

definition new_engine :: "(bool, unit) TSDB" where
  "new_engine =
     \<lparr>retentionPolicy = 1, gcWaits = True, isClosed = False, idx = (), db_store = newShard\<rparr>"

definition stopped_engine :: "(bool, unit) TSDB" where
  "stopped_engine =
     \<lparr>retentionPolicy = 1, gcWaits = False, isClosed = True, idx = (), db_store = newShard\<rparr>"

definition length_hash :: "string \<Rightarrow> 64 word" where
  "length_hash k = word_of_nat (length k)"

definition exact_grow :: "nat \<Rightarrow> nat \<Rightarrow> nat" where
  "exact_grow c n = n"

definition series_of_tags :: "bool TPoint \<Rightarrow> string" where
  "series_of_tags p = concat (map (\<lambda>t. Key t @ ''='' @ Value t @ '','') (tags p))"

definition same_index :: "unit \<Rightarrow> (string \<rightharpoonup> Tag list) \<Rightarrow> unit" where
  "same_index i m = i"

definition point_hostA :: "bool TPoint" where
  "point_hostA = \<lparr>tags = [\<lparr>Key = ''host'', Value = ''A''\<rparr>], time = 5, field = True\<rparr>"

definition point_untagged :: "bool TPoint" where
  "point_untagged = \<lparr>tags = [], time = 6, field = False\<rparr>"

section \<open>Sweeping a partition\<close>

lemma store_partition_removeBefore:
  "store (partition_removeBefore t p) k =
     (case store p k of
        None \<Rightarrow> None
      | Some e \<Rightarrow>
          if evalues e = [] then None
          else Some \<lparr>evalues = filter (\<lambda>v. t \<le> UnixNano v) (evalues e), cap = length (evalues e)\<rparr>)"
  by (simp add: partition_removeBefore_def entry_removeBefore_def Let_def split: option.split)

text \<open>
  C5. \<open>partition.removeBefore\<close> is idempotent: for every threshold, sweeping a partition
  twice leaves the same stored values, as read through \<open>valuesBetween\<close> for any key and
  any bounds, as sweeping it once.
\<close>

theorem partition_removeBefore_idempotent:
  "partition_valuesBetween (partition_removeBefore t (partition_removeBefore t p)) key mn mx =
   partition_valuesBetween (partition_removeBefore t p) key mn mx"
proof (cases "store p key")
  case None
  then show ?thesis
    by (simp add: partition_valuesBetween_def store_partition_removeBefore)
next
  case (Some e)
  then show ?thesis
    by (auto simp: partition_valuesBetween_def store_partition_removeBefore
        entry_valuesBetween_def filter_empty_conv)
qed

text \<open>
  C6. After \<open>partition.removeBefore(threshold)\<close>: a key without an entry stays without
  one; an entry is dropped exactly when its capacity after the sweep is zero, which is
  exactly when it held no value before the sweep; a surviving entry holds its previous
  values with timestamp at least the threshold, in their order; and \<open>valuesBetween\<close> of a
  dropped key is empty.
\<close>

theorem partition_removeBefore_entries:
  "(store p k = None \<longrightarrow> store (partition_removeBefore t p) k = None) \<and>
   (\<forall>e. store p k = Some e \<longrightarrow>
      ((cap (entry_removeBefore t e) = 0) = (evalues e = [])) \<and>
      (cap (entry_removeBefore t e) \<noteq> 0 \<longrightarrow>
         store (partition_removeBefore t p) k =
           Some \<lparr>evalues = filter (\<lambda>v. UnixNano v \<ge> t) (evalues e), cap = length (evalues e)\<rparr>) \<and>
      (cap (entry_removeBefore t e) = 0 \<longrightarrow>
         store (partition_removeBefore t p) k = None \<and>
         partition_valuesBetween (partition_removeBefore t p) k mn mx = []))"
  by (simp add: store_partition_removeBefore partition_valuesBetween_def entry_removeBefore_def)

theorem partition_removeBefore_entries_witness:
  "store partition_cpu_mem ''cpu''
     = Some \<lparr>evalues = [\<lparr>UnixNano = 1, V = True\<rparr>, \<lparr>UnixNano = 5, V = False\<rparr>,
                         \<lparr>UnixNano = 3, V = True\<rparr>], cap = 4\<rparr> \<and>
   store (partition_removeBefore 3 partition_cpu_mem) ''cpu''
     = Some \<lparr>evalues = [\<lparr>UnixNano = 5, V = False\<rparr>, \<lparr>UnixNano = 3, V = True\<rparr>], cap = 3\<rparr> \<and>
   store partition_cpu_mem ''mem'' = Some \<lparr>evalues = [], cap = 8\<rparr> \<and>
   cap (entry_removeBefore 3 \<lparr>evalues = [], cap = 8\<rparr> :: bool entry) = 0 \<and>
   store (partition_removeBefore 3 partition_cpu_mem) ''mem'' = None \<and>
   partition_valuesBetween (partition_removeBefore 3 partition_cpu_mem) ''mem'' 0 9 = [] \<and>
   store partition_cpu_mem ''disk'' = None \<and>
   store (partition_removeBefore 3 partition_cpu_mem) ''disk'' = None"
proof -
  have cpu: "store partition_cpu_mem ''cpu''
     = Some \<lparr>evalues = [\<lparr>UnixNano = 1, V = True\<rparr>, \<lparr>UnixNano = 5, V = False\<rparr>,
                         \<lparr>UnixNano = 3, V = True\<rparr>], cap = 4\<rparr>"
    by (simp add: partition_cpu_mem_def)
  have mem: "store partition_cpu_mem ''mem'' = Some \<lparr>evalues = [], cap = 8\<rparr>"
    by (simp add: partition_cpu_mem_def)
  have disk: "store partition_cpu_mem ''disk'' = None"
    by (simp add: partition_cpu_mem_def)
  show ?thesis
    using cpu mem disk
      partition_removeBefore_entries [of partition_cpu_mem "''cpu''" 3]
      partition_removeBefore_entries [of partition_cpu_mem "''mem''" 3 0 9]
      partition_removeBefore_entries [of partition_cpu_mem "''disk''" 3]
    by (simp add: entry_removeBefore_def)
qed

section \<open>Looking a partition up\<close>

lemma length_newShard: "length (partitions newShard) = 16"
  by (simp add: newShard_def partitionNum_def upt_rec numeral_nat)

lemma length_writeMulti:
  "writeMulti sum64 grow s kvs = Some s' \<Longrightarrow> length (partitions s') = length (partitions s)"
proof (induction kvs arbitrary: s)
  case Nil
  then show ?case by simp
next
  case (Cons kv kvs)
  obtain k v where kv: "kv = (k, v)" by (cases kv)
  from Cons.prems kv obtain i where
    rest: "writeMulti sum64 grow
             (s\<lparr>partitions := (partitions s)[i := partition_write grow (partitions s ! i) k v]\<rparr>) kvs
           = Some s'"
    by (auto split: option.splits)
  from Cons.IH [OF rest] show ?case by simp
qed

lemma length_reachable_shard:
  "reachable_shard sum64 grow s \<Longrightarrow> length (partitions s) = 16"
proof (induction rule: reachable_shard.induct)
  case reach_new
  show ?case by (rule length_newShard)
next
  case (reach_removeBefore s t)
  then show ?case by (simp add: shard_removeBefore_def)
next
  case (reach_writeMulti s kvs s')
  then show ?case by (simp add: length_writeMulti)
qed

lemma sint_mod_of_nat:
  fixes h :: "64 word"
  assumes "0 < L" and "L < 2 ^ 63"
  shows "word_of_nat L \<noteq> (0 :: 64 word)"
    and "0 \<le> sint (h mod word_of_nat L)"
    and "sint (h mod word_of_nat L) < int L"
proof -
  let ?n = "word_of_nat L :: 64 word"
  have L64: "L < 2 ^ 64" using assms(2) by simp
  have un: "unat ?n = L"
    using L64 by (simp add: unat_of_nat)
  show nz: "?n \<noteq> 0"
    using un assms(1) by (metis unat_0 less_numeral_extra(3))
  have lt: "unat (h mod ?n) < L"
    using assms(1) un by (simp add: unat_mod_distrib)
  have ul: "uint (h mod ?n) < int L"
    using lt unfolding unat_eq_nat_uint by linarith
  have "int L < 2 ^ 63"
    using assms(2) by (metis of_nat_less_iff of_nat_numeral of_nat_power)
  with ul have u63: "uint (h mod ?n) < 2 ^ 63" by linarith
  have "sint (h mod ?n) = signed_take_bit 63 (uint (h mod ?n))"
    by (simp add: sint_uint)
  also have "\<dots> = uint (h mod ?n)"
  proof (rule signed_take_bit_int_eq_self)
    show "- (2 ^ 63) \<le> uint (h mod ?n)"
      by (rule order_trans [of _ 0]) simp_all
    show "uint (h mod ?n) < 2 ^ 63" by (rule u63)
  qed
  finally have s: "sint (h mod ?n) = uint (h mod ?n)" .
  show "0 \<le> sint (h mod ?n)" unfolding s by simp
  show "sint (h mod ?n) < int L" unfolding s by (rule ul)
qed

lemma getPartitions_in_range:
  assumes "0 < length (partitions s)" and "length (partitions s) < 2 ^ 63"
  shows "\<exists>i<length (partitions s). getPartitions sum64 s key = Some i"
proof -
  note f = sint_mod_of_nat [OF assms]
  have "nat (sint (sum64 key mod word_of_nat (length (partitions s)))) < length (partitions s)"
    using f(2,3) [of "sum64 key"] by linarith
  then show ?thesis
    using f by (simp add: getPartitions_def Let_def)
qed

text \<open>
  C10. \<open>getPartitions\<close> is safe for every key: a shard made by \<open>newShard\<close> and changed
  only by \<open>removeBefore\<close> and \<open>writeMulti\<close> has exactly 16 partitions, the modulus
  \<open>uint64(len(s.partitions))\<close> is not zero, and the lookup returns an index inside the
  slice instead of panicking.
\<close>

theorem getPartitions_safe:
  assumes "reachable_shard sum64 grow s"
  shows "length (partitions s) = 16 \<and>
         (word_of_nat (length (partitions s)) :: 64 word) \<noteq> 0 \<and>
         (\<exists>i<length (partitions s). getPartitions sum64 s key = Some i)"
proof -
  have len: "length (partitions s) = 16"
    using assms by (rule length_reachable_shard)
  have pos: "0 < length (partitions s)" and small: "length (partitions s) < 2 ^ 63"
    using len by simp_all
  show ?thesis
    using len sint_mod_of_nat(1) [OF pos small] getPartitions_in_range [OF pos small]
    by blast
qed

theorem getPartitions_safe_witness:
  "reachable_shard (\<lambda>k. word_of_nat (length k)) (\<lambda>c n. n)
     (shard_removeBefore 7 (newShard :: bool shard)) \<and>
   length (partitions (shard_removeBefore 7 (newShard :: bool shard))) = 16 \<and>
   getPartitions (\<lambda>k. word_of_nat (length k)) (shard_removeBefore 7 (newShard :: bool shard))
     ''host=A,region=SH'' = Some 0"
proof -
  have r: "reachable_shard (\<lambda>k. word_of_nat (length k)) (\<lambda>c n. n)
             (shard_removeBefore 7 (newShard :: bool shard))"
    by (rule reach_removeBefore [OF reach_new])
  have g: "getPartitions (\<lambda>k. word_of_nat (length k)) (shard_removeBefore 7 (newShard :: bool shard))
             ''host=A,region=SH'' = Some 0"
    using getPartitions_safe [OF r, of "''host=A,region=SH''"]
    by (simp add: getPartitions_def Let_def)
  show ?thesis
    using r getPartitions_safe [OF r, of "''host=A,region=SH''"] g by simp
qed

section \<open>Windows of shard groups\<close>

lemma Round_cases:
  assumes "0 < d"
  shows "Round t d = (if 2 * (t mod d) < d then t - t mod d else t + (d - t mod d))"
  using assms by (simp add: Round_def Let_def)

lemma Sub_nonneg_iff: "(0 \<le> Sub t u) = (u \<le> t)"
  by (simp add: Sub_def Let_def)

lemma initTime_width: "sg_max (initTime g t d) - sg_min (initTime g t d) = d"
  by (simp add: initTime_def Let_def Add_def)

text \<open>
  The window of \<open>initTime\<close> for a positive duration: the bucket \<open>[t - t mod d, t - t mod d + d)\<close>
  when \<open>t\<close> is not a multiple of \<open>d\<close>, and the bucket before \<open>t\<close>, \<open>[t - d, t)\<close>, when
  it is one (\<open>rounded.Sub(t) >= 0\<close> holds with equality there).
\<close>

lemma initTime_window:
  assumes "0 < d"
  shows "sg_min (initTime g t d) = (if t mod d = 0 then t - d else t - t mod d) \<and>
         sg_max (initTime g t d) = (if t mod d = 0 then t else t - t mod d + d)"
proof -
  define r where "r = t mod d"
  have r: "0 \<le> r" "r < d" using assms by (simp_all add: r_def)
  have R: "Round t d = (if 2 * r < d then t - r else t + (d - r))"
    using assms by (simp add: Round_cases r_def)
  have "sg_min (initTime g t d) = (if r = 0 then t - d else t - r) \<and>
        sg_max (initTime g t d) = (if r = 0 then t else t - r + d)"
    unfolding initTime_def Let_def Add_def Sub_nonneg_iff R using r by auto
  then show ?thesis by (simp add: r_def)
qed

lemma contains_iff: "contains g t = (sg_min g < t \<and> t < sg_max g \<or> sg_min g = t)"
  by (auto simp: contains_def Before_def After_def Equal_def)

lemma initTime_contains:
  assumes "0 < d"
  shows "contains (initTime g t d) t = (t mod d \<noteq> 0)"
proof -
  define r where "r = t mod d"
  have r: "0 \<le> r" "r < d" using assms by (simp_all add: r_def)
  have "contains (initTime g t d) t = (r \<noteq> 0)"
    unfolding contains_iff using initTime_window [OF assms, of g t] r assms
    by (auto simp: r_def [symmetric])
  then show ?thesis by (simp add: r_def)
qed

text \<open>
  C2. The window of \<open>initTime(t, d)\<close> has width \<open>d\<close>, but it does not contain \<open>t\<close> when
  \<open>t\<close> is a multiple of \<open>d\<close>: for \<open>t = time.Unix(60, 0)\<close> and \<open>d\<close> one minute the
  window is \<open>[time.Unix(0, 0), time.Unix(60, 0))\<close>, so \<open>min <= t < max\<close> fails and
  \<open>contains\<close> answers false.
\<close>

theorem initTime_on_boundary:
  "sg_min (initTime \<lparr>sg_max = 0, sg_min = 0, sg_shard = 0\<rparr> (Unix 60 0) shardGroupDuration) = Unix 0 0 \<and>
   sg_max (initTime \<lparr>sg_max = 0, sg_min = 0, sg_shard = 0\<rparr> (Unix 60 0) shardGroupDuration) = Unix 60 0 \<and>
   \<not> (Unix 60 0 < sg_max (initTime \<lparr>sg_max = 0, sg_min = 0, sg_shard = 0\<rparr> (Unix 60 0) shardGroupDuration)) \<and>
   \<not> contains (initTime \<lparr>sg_max = 0, sg_min = 0, sg_shard = 0\<rparr> (Unix 60 0) shardGroupDuration) (Unix 60 0)"
  by (simp add: initTime_def Round_def Sub_def Add_def Let_def contains_def Before_def After_def
      Equal_def Unix_def shardGroupDuration_def)

text \<open>
  C4. \<open>have(qmin, qmax)\<close> of a group with window \<open>[gmin, gmax)\<close> is true exactly when
  \<open>qmin\<close> lies strictly inside the window, or \<open>qmax\<close> lies strictly inside the window,
  or \<open>qmin\<close> equals \<open>gmin\<close>.
\<close>

theorem sg_have_iff:
  "sg_have g qmin qmax =
     ((sg_min g < qmin \<and> qmin < sg_max g) \<or> (sg_min g < qmax \<and> qmax < sg_max g) \<or>
      qmin = sg_min g)"
  by (auto simp: sg_have_def Before_def After_def Equal_def)

text \<open>The rule is not interval intersection: a query that covers a whole window misses it.\<close>

lemma sg_have_covered_window:
  "\<not> sg_have \<lparr>sg_max = Unix 120 0, sg_min = Unix 60 0, sg_shard = 0\<rparr> (Unix 30 0) (Unix 150 0)"
  by (simp add: sg_have_def Before_def After_def Equal_def Unix_def)

section \<open>The groups of the windowed engine\<close>

lemma getShardGroup_found:
  "find (\<lambda>sg. contains sg ti) (sgs t) = Some sg \<Longrightarrow> getShardGroup t ti = (sg, t)"
  by (simp add: getShardGroup_def)

lemma getShardGroup_fresh:
  assumes "find (\<lambda>sg. contains sg ti) (sgs t) = None" and "emptySgs t = []"
  shows "getShardGroup t ti =
           (let (sg, t') = newShardGroup t ti shardGroupDuration in (sg, t'\<lparr>sgs := sgs t' @ [sg]\<rparr>))"
  using assms by (simp add: getShardGroup_def)

lemma sg_shard_initTime: "sg_shard (initTime g t d) = sg_shard g"
  by (simp add: initTime_def Let_def)

lemma newShardGroup_fields:
  "sg_shard (fst (newShardGroup t ti d)) = nextShard t"
  "emptySgs (snd (newShardGroup t ti d)) = emptySgs t"
  "sgs (snd (newShardGroup t ti d)) = sgs t"
  "nextShard (snd (newShardGroup t ti d)) = Suc (nextShard t)"
  by (simp_all add: newShardGroup_def NewShard_def sg_shard_initTime)

text \<open>
  The invariant of the engine: the pool is empty, and every group refers to a shard that
  has been allocated.
\<close>

lemma getShardGroup_pool_empty:
  assumes "emptySgs t = []" and "\<forall>g\<in>set (sgs t). sg_shard g < nextShard t"
  shows "emptySgs (snd (getShardGroup t ti)) = [] \<and>
         (\<forall>g\<in>set (sgs (snd (getShardGroup t ti))). sg_shard g < nextShard (snd (getShardGroup t ti)))"
proof (cases "find (\<lambda>sg. contains sg ti) (sgs t)")
  case None
  show ?thesis
    using assms
    by (auto simp: getShardGroup_fresh [OF None assms(1)] split_beta newShardGroup_fields less_Suc_eq)
next
  case (Some sg)
  then show ?thesis using assms by (simp add: getShardGroup_found)
qed

lemma insertPoint_pool_empty:
  assumes "emptySgs t = []" and "\<forall>g\<in>set (sgs t). sg_shard g < nextShard t"
  shows "emptySgs (insertPoint p t) = [] \<and>
         (\<forall>g\<in>set (sgs (insertPoint p t)). sg_shard g < nextShard (insertPoint p t))"
  using getShardGroup_pool_empty [OF assms, of "Time p"]
  by (simp add: insertPoint_def split_beta)

lemma InsertPoints_pool_empty:
  "emptySgs t = [] \<Longrightarrow> \<forall>g\<in>set (sgs t). sg_shard g < nextShard t \<Longrightarrow>
   emptySgs (InsertPoints t ps) = [] \<and>
   (\<forall>g\<in>set (sgs (InsertPoints t ps)). sg_shard g < nextShard (InsertPoints t ps))"
proof (induction ps arbitrary: t)
  case Nil
  then show ?case by (simp add: InsertPoints_def)
next
  case (Cons p ps)
  from insertPoint_pool_empty [OF Cons.prems]
  have "emptySgs (insertPoint p t) = []"
    and "\<forall>g\<in>set (sgs (insertPoint p t)). sg_shard g < nextShard (insertPoint p t)"
    by simp_all
  from Cons.IH [OF this] show ?case by (simp add: InsertPoints_def)
qed

lemma run_calls_pool_empty:
  "emptySgs (run_calls r calls) = [] \<and>
   (\<forall>g\<in>set (sgs (run_calls r calls)). sg_shard g < nextShard (run_calls r calls))"
proof (induction calls rule: rev_induct)
  case Nil
  show ?case by (simp add: run_calls_def NewTSDB_def)
next
  case (snoc c calls)
  show ?case
  proof (cases c)
    case (CallInsertPoints ps)
    with snoc InsertPoints_pool_empty [of "run_calls r calls" ps]
    show ?thesis by (simp add: run_calls_def)
  next
    case (CallQuery tag mn mx)
    with snoc show ?thesis by (simp add: run_calls_def)
  qed
qed

text \<open>
  C9. In every state that a sequence of \<open>InsertPoints\<close> and \<open>Query\<close> calls reaches from
  a new engine, the pool \<open>emptySgs\<close> is empty; so when no active group contains an
  instant, \<open>getShardGroup\<close> takes the branch of \<open>newShardGroup\<close>, never the pooled one,
  and the shard of the new group is freshly allocated: no active group refers to it.
\<close>

theorem emptySgs_always_empty:
  "emptySgs (run_calls r calls) = [] \<and>
   (find (\<lambda>sg. contains sg ti) (sgs (run_calls r calls)) = None \<longrightarrow>
      getShardGroup (run_calls r calls) ti =
        (let (sg, t') = newShardGroup (run_calls r calls) ti shardGroupDuration
         in (sg, t'\<lparr>sgs := sgs t' @ [sg]\<rparr>)) \<and>
      sg_shard (fst (getShardGroup (run_calls r calls) ti)) \<notin> sg_shard ` set (sgs (run_calls r calls)))"
proof -
  note inv = run_calls_pool_empty [of r calls]
  have e: "emptySgs (run_calls r calls) = []" using inv by simp
  show ?thesis
  proof (intro conjI impI)
    show "emptySgs (run_calls r calls) = []" by (rule e)
  next
    assume n: "find (\<lambda>sg. contains sg ti) (sgs (run_calls r calls)) = None"
    show g: "getShardGroup (run_calls r calls) ti =
        (let (sg, t') = newShardGroup (run_calls r calls) ti shardGroupDuration
         in (sg, t'\<lparr>sgs := sgs t' @ [sg]\<rparr>))"
      by (rule getShardGroup_fresh [OF n e])
    have "sg_shard (fst (getShardGroup (run_calls r calls) ti)) = nextShard (run_calls r calls)"
      by (simp add: g split_beta newShardGroup_fields)
    then show "sg_shard (fst (getShardGroup (run_calls r calls) ti)) \<notin> sg_shard ` set (sgs (run_calls r calls))"
      using inv by auto
  qed
qed

theorem emptySgs_always_empty_witness:
  "find (\<lambda>sg. contains sg (Unix 10 0))
     (sgs (run_calls 0 [CallInsertPoints [point_at 90], CallQuery tag_ab 0 1])) = None \<and>
   emptySgs (run_calls 0 [CallInsertPoints [point_at 90], CallQuery tag_ab 0 1]) = [] \<and>
   sg_shard (fst (getShardGroup
     (run_calls 0 [CallInsertPoints [point_at 90], CallQuery tag_ab 0 1]) (Unix 10 0))) = 1"
proof -
  let ?t = "run_calls 0 [CallInsertPoints [point_at 90], CallQuery tag_ab 0 1]"
  have s: "sgs ?t = [\<lparr>sg_max = Unix 120 0, sg_min = Unix 60 0, sg_shard = 0\<rparr>]"
    by (simp add: run_calls_def NewTSDB_def InsertPoints_def insertPoint_def getShardGroup_def
      newShardGroup_def NewShard_def initTime_def Round_def Sub_def Add_def Let_def
      shardGroupDuration_def contains_def Before_def After_def Equal_def Unix_def
      point_at_def tag_ab_def)
  have n: "nextShard ?t = 1"
    by (simp add: run_calls_def NewTSDB_def InsertPoints_def insertPoint_def getShardGroup_def
      newShardGroup_def NewShard_def initTime_def Round_def Sub_def Add_def Let_def
      shardGroupDuration_def contains_def Before_def After_def Equal_def Unix_def
      point_at_def tag_ab_def)
  have f: "find (\<lambda>sg. contains sg (Unix 10 0)) (sgs ?t) = None"
    by (subst s) (simp add: contains_def Before_def After_def Equal_def Unix_def)
  from emptySgs_always_empty
    [of 0 "[CallInsertPoints [point_at 90], CallQuery tag_ab 0 1]" "Unix 10 0"] f
  show ?thesis
    by (simp add: split_beta newShardGroup_fields n)
qed

text \<open>
  C3. The windows of the active groups are not always disjoint: two points at the same
  instant \<open>time.Unix(60, 0)\<close>, a multiple of a minute, make two groups with the same
  window \<open>[time.Unix(0, 0), time.Unix(60, 0))\<close> and different shards, since the window
  made for the first point does not contain the instant and the second point finds no
  group. Every instant of that window then lies in two active groups.
\<close>

theorem InsertPoints_duplicate_window:
  "map (\<lambda>g. (sg_min g, sg_max g, sg_shard g))
     (sgs (run_calls 0 [CallInsertPoints [point_at 60], CallInsertPoints [point_at 60]]))
   = [(Unix 0 0, Unix 60 0, 0), (Unix 0 0, Unix 60 0, 1)] \<and>
   length (filter (\<lambda>g. contains g (Unix 30 0))
     (sgs (run_calls 0 [CallInsertPoints [point_at 60], CallInsertPoints [point_at 60]]))) = 2"
  by (simp add: run_calls_def NewTSDB_def InsertPoints_def insertPoint_def getShardGroup_def
      newShardGroup_def NewShard_def initTime_def Round_def Sub_def Add_def Let_def
      shardGroupDuration_def contains_def Before_def After_def Equal_def Unix_def
      point_at_def tag_ab_def)

text \<open>
  C1. \<open>Query\<close> does not return every inserted point with the tag inside the query
  interval: the point at \<open>time.Unix(90, 0)\<close> lies in the group
  \<open>[time.Unix(60, 0), time.Unix(120, 0))\<close>, and the query from \<open>time.Unix(30, 0)\<close> to
  \<open>time.Unix(150, 0)\<close> for its tag covers that window, so \<open>have\<close> is false, the group is
  skipped and the result is empty.
\<close>

theorem Query_skips_covered_group:
  "tag_ab \<in> set (Tags (point_at 90)) \<and>
   Unix 30 0 \<le> Time (point_at 90) \<and> Time (point_at 90) \<le> Unix 150 0 \<and>
   Query (InsertPoints (NewTSDB 0) [point_at 90]) tag_ab (Unix 30 0) (Unix 150 0) = []"
  by (simp add: Query_def sg_have_def run_calls_def NewTSDB_def InsertPoints_def insertPoint_def getShardGroup_def
      newShardGroup_def NewShard_def initTime_def Round_def Sub_def Add_def Let_def
      shardGroupDuration_def contains_def Before_def After_def Equal_def Unix_def
      point_at_def tag_ab_def)

text \<open>A query whose lower bound lies inside the window finds the same point.\<close>

lemma Query_inside_window:
  "Query (InsertPoints (NewTSDB 0) [point_at 90]) tag_ab (Unix 80 0) (Unix 150 0) = [point_at 90]"
  by (simp add: Query_def sg_have_def shard_Query_def shard_Insert_def updateIndex_def
      NewMemShard_def run_calls_def NewTSDB_def InsertPoints_def insertPoint_def getShardGroup_def
      newShardGroup_def NewShard_def initTime_def Round_def Sub_def Add_def Let_def
      shardGroupDuration_def contains_def Before_def After_def Equal_def Unix_def
      point_at_def tag_ab_def)

section \<open>Writing to the engine of package tsdb\<close>

lemma groupPoints_missing_tag:
  "\<exists>p\<in>set points. length (Series p) = 0 \<Longrightarrow>
   groupPoints Series points seriesTags vals = Inl ErrPointMissingTag"
proof (induction points arbitrary: seriesTags vals)
  case Nil
  then show ?case by simp
next
  case (Cons point points)
  show ?case
  proof (cases "length (Series point) = 0")
    case True
    then show ?thesis by simp
  next
    case False
    with Cons.prems have "\<exists>p\<in>set points. length (Series p) = 0" by auto
    from Cons.IH [OF this] False show ?thesis by (simp add: Let_def)
  qed
qed

lemma WritePoints_closed:
  "isClosed db \<Longrightarrow>
   WritePoints sum64 grow Series cs db points = Some (Some ErrDBClosed, db)"
  by (simp add: WritePoints_def)

text \<open>
  C7, as the code has it. If any point of the batch has an empty series key, an engine
  that is not closed returns \<open>ErrPointMissingTag\<close> and a closed engine returns
  \<open>ErrDBClosed\<close>; in both cases the state after the call is the state before it, so
  neither the index nor the value store is changed and no point of the batch is written.
\<close>

theorem WritePoints_missing_tag:
  assumes "\<exists>p\<in>set points. length (Series p) = 0"
  shows "WritePoints sum64 grow Series cs db points =
           Some (Some (if isClosed db then ErrDBClosed else ErrPointMissingTag), db)"
  using groupPoints_missing_tag [OF assms, of Map.empty "[]"]
  by (simp add: WritePoints_def)

theorem WritePoints_missing_tag_witness:
  "New () 1 = Some new_engine \<and>
   (\<exists>p\<in>set [point_hostA, point_untagged]. length (series_of_tags p) = 0) \<and>
   WritePoints length_hash exact_grow series_of_tags same_index new_engine
     [point_hostA, point_untagged]
   = Some (Some ErrPointMissingTag, new_engine)"
proof -
  have n: "New () 1 = Some new_engine"
    by (simp add: New_def new_engine_def)
  have h: "\<exists>p\<in>set [point_hostA, point_untagged]. length (series_of_tags p) = 0"
    by (simp add: series_of_tags_def point_untagged_def)
  have o: "\<not> isClosed new_engine"
    by (simp add: new_engine_def)
  show ?thesis
    using n h o
      WritePoints_missing_tag [OF h, of length_hash exact_grow same_index new_engine]
    by simp
qed

text \<open>
  On a closed engine the batch with a point without tags gets the other error: the engine
  \<open>New[bool](1)\<close> after \<open>Stop\<close>.
\<close>

theorem WritePoints_missing_tag_closed:
  "New () 1 = Some new_engine \<and> Stop new_engine = Some stopped_engine \<and>
   length (series_of_tags point_untagged) = 0 \<and>
   WritePoints length_hash exact_grow series_of_tags same_index stopped_engine [point_untagged]
   \<noteq> Some (Some ErrPointMissingTag, stopped_engine)"
  by (simp add: WritePoints_def Stop_def New_def new_engine_def stopped_engine_def
      series_of_tags_def point_untagged_def)

lemma Stop_Some:
  "Stop db = Some db' \<Longrightarrow> isClosed db' \<and> \<not> gcWaits db'"
  by (auto simp: Stop_def split: if_splits)

lemma Stop_blocks: "\<not> gcWaits db \<Longrightarrow> Stop db = None"
  by (simp add: Stop_def)

lemma isClosed_gc_sweep: "isClosed (gc_sweep now db) = isClosed db"
  by (simp add: gc_sweep_def)

text \<open>
  From a closed engine whose \<open>gc\<close> has returned: calls of \<open>WritePoints\<close> leave the state
  as it is, and the run stays in the first \<open>Stop\<close> it comes to.
\<close>

lemma run_ops_closed:
  "isClosed db \<Longrightarrow> \<not> gcWaits db \<Longrightarrow>
   run_ops sum64 grow Series cs db ops = (if OpStop \<in> set ops then Blocked else Done db)"
proof (induction ops)
  case Nil
  then show ?case by simp
next
  case (Cons x ops)
  show ?case
  proof (cases x)
    case (OpWritePoints points)
    with Cons show ?thesis by (simp add: WritePoints_closed)
  next
    case OpStop
    with Cons.prems show ?thesis by (simp add: Stop_blocks)
  qed
qed

text \<open>
  C8. When \<open>Stop\<close> has completed, the engine is closed; a \<open>WritePoints\<close> call then
  returns \<open>ErrDBClosed\<close> and leaves the whole state, so the index and the value store,
  as it was; and after any further calls of \<open>WritePoints\<close> the state is still the one
  \<open>Stop\<close> left, so this holds for every subsequent \<open>WritePoints\<close> call. No operation
  sets \<open>isClosed\<close> back: the only other operation, a second \<open>Stop\<close>, never returns.
\<close>

theorem WritePoints_after_Stop:
  assumes "Stop db = Some db'"
  shows "isClosed db' \<and>
         WritePoints sum64 grow Series cs db' points = Some (Some ErrDBClosed, db') \<and>
         run_ops sum64 grow Series cs db' ops = (if OpStop \<in> set ops then Blocked else Done db')"
proof -
  from Stop_Some [OF assms] have c: "isClosed db'" and g: "\<not> gcWaits db'"
    by simp_all
  show ?thesis
    using c WritePoints_closed [OF c] run_ops_closed [OF c g] by simp
qed

theorem WritePoints_after_Stop_witness:
  "New () 1 = Some new_engine \<and> Stop new_engine = Some stopped_engine \<and>
   isClosed stopped_engine \<and>
   WritePoints length_hash exact_grow series_of_tags same_index stopped_engine [point_hostA]
     = Some (Some ErrDBClosed, stopped_engine) \<and>
   run_ops length_hash exact_grow series_of_tags same_index stopped_engine
     [OpWritePoints [point_hostA], OpWritePoints [point_untagged]] = Done stopped_engine \<and>
   run_ops length_hash exact_grow series_of_tags same_index stopped_engine
     [OpWritePoints [point_hostA], OpStop, OpWritePoints [point_hostA]] = Blocked"
proof -
  have n: "New () 1 = Some new_engine"
    by (simp add: New_def new_engine_def)
  have s: "Stop new_engine = Some stopped_engine"
    by (simp add: Stop_def new_engine_def stopped_engine_def)
  show ?thesis
    using n s
      WritePoints_after_Stop [OF s, of length_hash exact_grow series_of_tags same_index
        "[point_hostA]" "[OpWritePoints [point_hostA], OpWritePoints [point_untagged]]"]
      WritePoints_after_Stop [OF s, of length_hash exact_grow series_of_tags same_index
        "[point_hostA]" "[OpWritePoints [point_hostA], OpStop, OpWritePoints [point_hostA]]"]
    by (simp del: run_ops.simps)
qed

end
